theory Spec2Isabelle
  imports Complex_Main "HOL-Library.Word"
begin

section \<open>Python strings\<close>

text \<open>
  A Python \<open>str\<close> is a sequence of Unicode code points. Isabelle's \<open>char\<close> is a byte,
  and the program handles text beyond Latin-1 (the author marker below contains U+20AC and
  U+201C), so a string is modelled as the list of its code points. \<open>str\<close> embeds an ASCII
  literal.
\<close>

type_synonym pystr = "nat list"

definition str :: "string \<Rightarrow> pystr" where
  "str s = map of_char s"

text \<open>
  The code points on which \<open>str.split()\<close> and \<open>str.strip()\<close> (called without argument)
  split and strip: the characters for which CPython's \<open>Py_UNICODE_ISSPACE\<close> holds.
\<close>

definition isspace :: "nat \<Rightarrow> bool" where
  "isspace c \<longleftrightarrow>
     (9 \<le> c \<and> c \<le> 13) \<or> (28 \<le> c \<and> c \<le> 32) \<or> c = 133 \<or> c = 160 \<or> c = 5760 \<or>
     (8192 \<le> c \<and> c \<le> 8202) \<or> c = 8232 \<or> c = 8233 \<or> c = 8239 \<or> c = 8287 \<or> c = 12288"

text \<open>
  \<open>text.split()\<close>: the maximal runs of non-whitespace characters, in order. \<open>split_aux\<close>
  scans the text with the word read so far.
\<close>

fun split_aux :: "pystr \<Rightarrow> pystr \<Rightarrow> pystr list" where
  "split_aux w [] = (if w = [] then [] else [w])"
| "split_aux w (c # cs) =
     (if isspace c then (if w = [] then split_aux [] cs else w # split_aux [] cs)
      else split_aux (w @ [c]) cs)"

definition split :: "pystr \<Rightarrow> pystr list" where
  "split s = split_aux [] s"

text \<open>\<open>s.strip()\<close>: leading and trailing whitespace removed.\<close>

definition strip :: "pystr \<Rightarrow> pystr" where
  "strip s = rev (dropWhile isspace (rev (dropWhile isspace s)))"

text \<open>\<open>sep.join(xs)\<close>.\<close>

fun join :: "pystr \<Rightarrow> pystr list \<Rightarrow> pystr" where
  "join sep [] = []"
| "join sep [x] = x"
| "join sep (x # y # ys) = x @ sep @ join sep (y # ys)"

section \<open>Fonts and text measurement\<close>

text \<open>
  The program measures text only through \<open>draw.textbbox((0, 0), s, font=font)\<close>, which
  returns the box \<open>(left, top, right, bottom)\<close> of the string \<open>s\<close>. A font handle is
  modelled by that measurement; with the integer origin \<open>(0, 0)\<close> the four numbers are
  integers.
\<close>

type_synonym bbox = "int \<times> int \<times> int \<times> int"

type_synonym font = "pystr \<Rightarrow> bbox"

definition text_width :: "font \<Rightarrow> pystr \<Rightarrow> int" where
  "text_width fnt s = (case fnt s of (x0, y0, x1, y1) \<Rightarrow> x1 - x0)"

definition text_height :: "font \<Rightarrow> pystr \<Rightarrow> int" where
  "text_height fnt s = (case fnt s of (x0, y0, x1, y1) \<Rightarrow> y1 - y0)"

text \<open>A fixed-pitch font for examples: every character is 10 pixels wide and 20 high.\<close>

definition fixed_font :: font where
  "fixed_font s = (0, 0, 10 * int (length s), 20)"

section \<open>The text wrapper\<close>

text \<open>
  The loop of \<open>wrap_text\<close> over the words, on the pair of the lines flushed so far and the
  current line.
\<close>

fun wrap_loop :: "font \<Rightarrow> int \<Rightarrow> pystr list \<times> pystr \<Rightarrow> pystr list \<Rightarrow> pystr list \<times> pystr" where
  "wrap_loop fnt max_width (lines, line) [] = (lines, line)"
| "wrap_loop fnt max_width (lines, line) (w # ws) =
     (let test = (if line = [] then w else line @ str '' '' @ w) in
      if text_width fnt test \<le> max_width
      then wrap_loop fnt max_width (lines, test) ws
      else wrap_loop fnt max_width ((if line \<noteq> [] then lines @ [line] else lines), w) ws)"

definition flush :: "pystr list \<times> pystr \<Rightarrow> pystr list" where
  "flush st = (case st of (lines, line) \<Rightarrow> if line \<noteq> [] then lines @ [line] else lines)"

definition wrap_text :: "pystr \<Rightarrow> font \<Rightarrow> int \<Rightarrow> pystr list" where
  "wrap_text text fnt max_width =
     (if text = [] then []
      else flush (wrap_loop fnt max_width ([], []) (split text)))"

section \<open>The multiline measurer\<close>

text \<open>
  The loop of \<open>measure_multiline\<close>, on the pair of the running maximum width and the list of
  line heights.
\<close>

fun measure_loop :: "font \<Rightarrow> int \<times> int list \<Rightarrow> pystr list \<Rightarrow> int \<times> int list" where
  "measure_loop fnt (width, line_heights) [] = (width, line_heights)"
| "measure_loop fnt (width, line_heights) (l # ls) =
     (case fnt l of (x0, y0, x1, y1) \<Rightarrow>
        let w = x1 - x0; h = y1 - y0
        in measure_loop fnt (max width w, line_heights @ [h]) ls)"

definition measure_multiline :: "pystr list \<Rightarrow> font \<Rightarrow> int \<Rightarrow> int \<times> int \<times> int list" where
  "measure_multiline lines fnt line_spacing =
     (case measure_loop fnt (0, []) lines of (width, line_heights) \<Rightarrow>
        let height = (if line_heights \<noteq> []
                      then sum_list line_heights + line_spacing * (int (length line_heights) - 1)
                      else 0)
        in (width, height, line_heights))"

section \<open>Rasters\<close>

text \<open>
  A Pillow image: its size and its pixels, row by row, in one of the modes \<open>L\<close> (8-bit
  grey), \<open>RGB\<close> and \<open>RGBA\<close>. The program itself only ever builds \<open>RGB\<close> images (the
  initial canvas is \<open>Image.new("RGB", ...)\<close> and a loaded file is converted on load).
\<close>

type_synonym byte = "8 word"

type_synonym rgb = "byte \<times> byte \<times> byte"

datatype pixels = L "byte list" | RGB "rgb list" | RGBA "(byte \<times> byte \<times> byte \<times> byte) list"

record image =
  img_width :: nat
  img_height :: nat
  img_data :: pixels

definition img_size :: "image \<Rightarrow> nat \<times> nat" where
  "img_size img = (img_width img, img_height img)"

text \<open>\<open>img.mode\<close>.\<close>

definition img_mode :: "image \<Rightarrow> string" where
  "img_mode img = (case img_data img of L ls \<Rightarrow> ''L'' | RGB px \<Rightarrow> ''RGB'' | RGBA ps \<Rightarrow> ''RGBA'')"

text \<open>\<open>img.convert("RGB")\<close>: grey is replicated on the three channels, alpha is dropped.\<close>

definition convert_RGB :: "image \<Rightarrow> image" where
  "convert_RGB img =
     (case img_data img of
        RGB px \<Rightarrow> img
      | L ls \<Rightarrow> img\<lparr>img_data := RGB (map (\<lambda>l. (l, l, l)) ls)\<rparr>
      | RGBA ps \<Rightarrow> img\<lparr>img_data := RGB (map (\<lambda>(r, g, b, a). (r, g, b)) ps)\<rparr>)"

text \<open>\<open>img.convert("RGBA")\<close>: an opaque alpha channel is added.\<close>

definition convert_RGBA :: "image \<Rightarrow> image" where
  "convert_RGBA img =
     (case img_data img of
        RGBA ps \<Rightarrow> img
      | L ls \<Rightarrow> img\<lparr>img_data := RGBA (map (\<lambda>l. (l, l, l, 255)) ls)\<rparr>
      | RGB px \<Rightarrow> img\<lparr>img_data := RGBA (map (\<lambda>(r, g, b). (r, g, b, 255)) px)\<rparr>)"

text \<open>
  The grey level Pillow computes for a colour pixel (ITU-R 601-2 luma, in 16-bit fixed
  point): \<open>(R * 19595 + G * 38470 + B * 7471 + 0x8000) >> 16\<close>.
\<close>

definition luma :: "rgb \<Rightarrow> byte" where
  "luma p = (case p of (r, g, b) \<Rightarrow>
     word_of_nat ((unat r * 19595 + unat g * 38470 + unat b * 7471 + 32768) div 65536))"

text \<open>\<open>ImageOps.grayscale(img)\<close>, that is \<open>img.convert("L")\<close>.\<close>

definition grayscale :: "image \<Rightarrow> image" where
  "grayscale img =
     (case img_data img of
        L ls \<Rightarrow> img
      | RGB px \<Rightarrow> img\<lparr>img_data := L (map luma px)\<rparr>
      | RGBA ps \<Rightarrow> img\<lparr>img_data := L (map (\<lambda>(r, g, b, a). luma (r, g, b)) ps)\<rparr>)"

text \<open>\<open>img.split()\<close>: the bands of an image, each an \<open>L\<close> image of the same size.\<close>

definition split_bands :: "image \<Rightarrow> image list" where
  "split_bands img =
     (case img_data img of
        L ls \<Rightarrow> [img]
      | RGB px \<Rightarrow>
          [img\<lparr>img_data := L (map (\<lambda>(r, g, b). r) px)\<rparr>,
           img\<lparr>img_data := L (map (\<lambda>(r, g, b). g) px)\<rparr>,
           img\<lparr>img_data := L (map (\<lambda>(r, g, b). b) px)\<rparr>]
      | RGBA ps \<Rightarrow>
          [img\<lparr>img_data := L (map (\<lambda>(r, g, b, a). r) ps)\<rparr>,
           img\<lparr>img_data := L (map (\<lambda>(r, g, b, a). g) ps)\<rparr>,
           img\<lparr>img_data := L (map (\<lambda>(r, g, b, a). b) ps)\<rparr>,
           img\<lparr>img_data := L (map (\<lambda>(r, g, b, a). a) ps)\<rparr>])"

section \<open>Exceptions\<close>

text \<open>
  The errors the program can meet all derive from Python's \<open>Exception\<close>; the argument is
  the message. A call that may raise returns \<open>py_exception + 'a\<close>, and \<open>and_then\<close>
  sequences two such calls: the second runs only when the first returned.
\<close>

datatype py_exception = ValueError string | Exception string

definition message :: "py_exception \<Rightarrow> string" where
  "message ex = (case ex of ValueError m \<Rightarrow> m | Exception m \<Rightarrow> m)"

definition and_then :: "'e + 'a \<Rightarrow> ('a \<Rightarrow> 'e + 'b) \<Rightarrow> 'e + 'b" where
  "and_then m f = (case m of Inl e \<Rightarrow> Inl e | Inr x \<Rightarrow> f x)"

text \<open>
  \<open>Image.merge("RGB", (r, g, b))\<close>: the three bands must be single-band images of one size.
\<close>

definition merge_RGB :: "image \<times> image \<times> image \<Rightarrow> py_exception + image" where
  "merge_RGB bands = (case bands of (r, g, b) \<Rightarrow>
     (case (img_data r, img_data g, img_data b) of
        (L rs, L gs, L bs) \<Rightarrow>
          if img_size g = img_size r \<and> img_size b = img_size r
          then Inr (r\<lparr>img_data := RGB (map (\<lambda>(x, y, z). (x, y, z)) (zip rs (zip gs bs)))\<rparr>)
          else Inl (ValueError ''size mismatch'')
      | _ \<Rightarrow> Inl (ValueError ''mode mismatch'')))"

text \<open>\<open>Image.new("RGB", size, color)\<close>.\<close>

definition new_RGB :: "nat \<times> nat \<Rightarrow> rgb \<Rightarrow> image" where
  "new_RGB sz color = (case sz of (w, h) \<Rightarrow>
     \<lparr>img_width = w, img_height = h, img_data = RGB (replicate (w * h) color)\<rparr>)"

section \<open>The platform\<close>

text \<open>
  What the program calls and does not define: Pillow's enhancers and filters, its text
  drawing, the font lookup over the installed font files, and Qt's pixmaps. Each is a
  parameter of the model; a call that can raise returns a sum. The numeric factors are the
  literals of the source.
\<close>

record preview_label =
  text_bbox_img_coords :: "int \<times> int \<times> int \<times> int"
  pixmap :: "image option"

record platform =
  contrast_enhance :: "image \<Rightarrow> rat \<Rightarrow> py_exception + image"
  color_enhance :: "image \<Rightarrow> rat \<Rightarrow> py_exception + image"
  brightness_enhance :: "image \<Rightarrow> rat \<Rightarrow> py_exception + image"
  gaussian_blur :: "image \<Rightarrow> nat \<Rightarrow> py_exception + image"
  unsharp_mask :: "image \<Rightarrow> nat \<Rightarrow> nat \<Rightarrow> nat \<Rightarrow> py_exception + image"
  blend :: "image \<Rightarrow> image \<Rightarrow> rat \<Rightarrow> py_exception + image"
  draw_text :: "image \<Rightarrow> int \<times> int \<Rightarrow> pystr \<Rightarrow> font \<Rightarrow> rgb \<Rightarrow> py_exception + image"
  find_font :: "pystr list \<Rightarrow> int \<Rightarrow> font"
  qpixmap_from_image :: "image \<Rightarrow> py_exception + image"
  set_scaled_pixmap :: "image \<Rightarrow> preview_label \<Rightarrow> py_exception + preview_label"

section \<open>The style filter\<close>

definition apply_style :: "platform \<Rightarrow> image \<Rightarrow> pystr \<Rightarrow> py_exception + image" where
  "apply_style env background style_name =
     (let img = convert_RGB background in
      if style_name = str ''None'' then Inr img
      else if style_name = str ''Epic'' then
        and_then (contrast_enhance env img (3 / 2)) (\<lambda>img.
        gaussian_blur env img 3)
      else if style_name = str ''Noir'' then
        Inr (convert_RGB (grayscale img))
      else if style_name = str ''Fancy'' then
        color_enhance env img (8 / 5)
      else if style_name = str ''Cyberpunk'' then
        (case split_bands img of
           [r, g, b] \<Rightarrow>
             and_then (merge_RGB (b, g, r)) (\<lambda>img.
             and_then (color_enhance env img (6 / 5)) (\<lambda>img.
             contrast_enhance env img (11 / 10)))
         | _ \<Rightarrow> Inl (ValueError ''not enough values to unpack''))
      else if style_name = str ''Phonk'' then
        and_then (brightness_enhance env img (3 / 4)) (\<lambda>img.
        let overlay = new_RGB (img_size img) (40, 0, 60) in
        and_then (blend env img overlay (1 / 5)) (\<lambda>img.
        contrast_enhance env img (11 / 10)))
      else if style_name = str ''Tech'' then
        unsharp_mask env img 2 200 3
      else Inr img)"

text \<open>The style names offered by the style selector.\<close>

definition STYLES :: "pystr list" where
  "STYLES = [str ''None'', str ''Epic'', str ''Noir'', str ''Fancy'', str ''Cyberpunk'',
             str ''Phonk'', str ''Tech'']"

text \<open>
  The property of Pillow the size claim rests on: an enhancer, a filter or a blend that
  returns, returns an image of the size of its (first) argument.
\<close>

definition size_preserving :: "platform \<Rightarrow> bool" where
  "size_preserving env \<longleftrightarrow>
     (\<forall>img f out. contrast_enhance env img f = Inr out \<longrightarrow> img_size out = img_size img) \<and>
     (\<forall>img f out. color_enhance env img f = Inr out \<longrightarrow> img_size out = img_size img) \<and>
     (\<forall>img f out. brightness_enhance env img f = Inr out \<longrightarrow> img_size out = img_size img) \<and>
     (\<forall>img r out. gaussian_blur env img r = Inr out \<longrightarrow> img_size out = img_size img) \<and>
     (\<forall>img r p t out. unsharp_mask env img r p t = Inr out \<longrightarrow> img_size out = img_size img) \<and>
     (\<forall>img ov a out. blend env img ov a = Inr out \<longrightarrow> img_size out = img_size img)"

section \<open>The application state\<close>

text \<open>
  The fields of \<open>QuoteStudio\<close> the core reads and writes. \<open>stdout\<close> collects what
  \<open>print\<close> writes.
\<close>

record quote_studio =
  base_image :: image
  filtered_bg :: image
  result_image :: "image option"
  current_style :: pystr
  text_color :: rgb
  font_size :: int
  quote :: pystr
  author :: pystr
  text_pos :: "int \<times> int"
  preview :: preview_label
  stdout :: "string list"

text \<open>\<open>self.margin_ratio\<close>, set once to 0.05.\<close>

definition margin_ratio :: rat where
  "margin_ratio = 5 / 100"

text \<open>
  Python's \<open>int(x)\<close> on a number: truncation towards zero. The source applies it to
  floating-point products of an integer with 0.25, 0.6 and 0.9; the products are taken here
  over the rationals. For 0.25 the floating-point product is exact, and for 0.6 and 0.9 the
  truncated floating-point product equals the truncated exact product for every integer of
  magnitude below \<open>10 ^ 15\<close>, far beyond any pixel count or font size.
\<close>

definition py_int :: "rat \<Rightarrow> int" where
  "py_int q = (if 0 \<le> q then \<lfloor>q\<rfloor> else \<lceil>q\<rceil>)"

text \<open>\<open>int(img.width * (1 - 2 * self.margin_ratio))\<close>.\<close>

definition max_text_width :: "image \<Rightarrow> int" where
  "max_text_width img = py_int (of_nat (img_width img) * (1 - 2 * margin_ratio))"

definition NONE_PREFS :: "pystr list" where
  "NONE_PREFS = [str ''Arial'', str ''DejaVu Sans'', str ''Verdana'', str ''Helvetica'']"

definition STYLE_FONT_PREFS :: "(pystr \<times> pystr list) list" where
  "STYLE_FONT_PREFS =
     [(str ''None'', NONE_PREFS),
      (str ''Epic'', [str ''Impact'', str ''Anton'', str ''Bebas Neue'', str ''Arial Black'',
         str ''DejaVu Sans'']),
      (str ''Noir'', [str ''Georgia'', str ''Times New Roman'', str ''DejaVu Serif'',
         str ''Merriweather'']),
      (str ''Fancy'', [str ''Pacifico'', str ''Brush Script'', str ''Lobster'',
         str ''Segoe Script'', str ''Gabriola'', str ''DejaVu Sans'']),
      (str ''Cyberpunk'', [str ''Orbitron'', str ''Eurostile'', str ''Agency FB'',
         str ''Bank Gothic'', str ''Audiowide'', str ''DejaVu Sans'']),
      (str ''Phonk'', [str ''Futura'', str ''Avenir'', str ''Montserrat'', str ''Poppins'',
         str ''Gotham'', str ''DejaVu Sans'']),
      (str ''Tech'', [str ''Consolas'', str ''Courier New'', str ''Inconsolata'',
         str ''DejaVu Sans Mono'', str ''SF Mono'', str ''DejaVu Sans''])]"

definition pick_style_font :: "platform \<Rightarrow> quote_studio \<Rightarrow> int \<Rightarrow> font" where
  "pick_style_font env self sz =
     (let prefs = (case map_of STYLE_FONT_PREFS (current_style self) of
                     Some p \<Rightarrow> p | None \<Rightarrow> NONE_PREFS)
      in find_font env prefs sz)"

section \<open>The layout composer\<close>

text \<open>
  The marker the source puts before the author, as its file has it: the three code points
  U+00E2, U+20AC, U+201C, then a space.
\<close>

definition author_marker :: pystr where
  "author_marker = [226, 8364, 8220, 32]"

text \<open>
  \<open>compute_text_layout\<close> returns the tuple
  \<open>(quote_lines, author_block_lines, (total_w, total_h), line_spacing, spacer_h)\<close>.
\<close>

type_synonym layout = "pystr list \<times> pystr list \<times> (int \<times> int) \<times> int \<times> int"

definition compute_text_layout :: "quote_studio \<Rightarrow> font \<Rightarrow> int \<Rightarrow> layout" where
  "compute_text_layout self fnt max_width =
     (let quote_lines = (if quote self \<noteq> [] then wrap_text (quote self) fnt max_width else []);
          line_spacing = max 6 (py_int (of_int (font_size self) * (25 / 100)))
      in case measure_multiline quote_lines fnt line_spacing of (q_w, q_h, q_line_heights) \<Rightarrow>
      let author_block_lines =
            (if strip (author self) \<noteq> []
             then [] # wrap_text (author_marker @ strip (author self)) fnt max_width
             else [])
      in case measure_multiline (filter (\<lambda>l. l \<noteq> []) author_block_lines) fnt line_spacing
         of (a_w, a_h, a_line_heights) \<Rightarrow>
      let spacer_h =
            (if author_block_lines \<noteq> []
             then (if q_line_heights \<noteq> []
                   then py_int (of_int (last q_line_heights) * (6 / 10))
                   else py_int (of_int (font_size self) * (6 / 10)))
             else 0);
          total_w = max q_w a_w;
          total_h = q_h + (if author_block_lines \<noteq> [] then spacer_h else 0) + a_h
      in (quote_lines, author_block_lines, (total_w, total_h), line_spacing, spacer_h))"

section \<open>Bounding box, clamp and hit test\<close>

definition compute_text_bbox :: "platform \<Rightarrow> quote_studio \<Rightarrow> int \<Rightarrow> int \<Rightarrow> bbox option" where
  "compute_text_bbox env self x y =
     (let tmp = filtered_bg self;
          fnt = pick_style_font env self (font_size self);
          max_width = max_text_width tmp
      in case compute_text_layout self fnt max_width of
           (quote_lines, author_block_lines, (total_w, total_h), line_spacing, spacer_h) \<Rightarrow>
             if total_w = 0 \<or> total_h = 0 then None
             else Some (x, y, x + total_w, y + total_h))"

definition clamp_text_within :: "platform \<Rightarrow> quote_studio \<Rightarrow> quote_studio" where
  "clamp_text_within env self =
     (case img_size (base_image self) of (img_w, img_h) \<Rightarrow>
      case compute_text_bbox env self (fst (text_pos self)) (snd (text_pos self)) of
        None \<Rightarrow> self
      | Some (x0, y0, x1, y1) \<Rightarrow>
          let dx = 0;
              dy = 0;
              dx = (if x0 < 0 then - x0 else dx);
              dy = (if y0 < 0 then - y0 else dy);
              dx = (if x1 > int img_w
                    then (if int img_w - x1 < dx then int img_w - x1 else int img_w - x1)
                    else dx);
              dy = (if y1 > int img_h
                    then (if int img_h - y1 < dy then int img_h - y1 else int img_h - y1)
                    else dy)
          in self\<lparr>text_pos := (fst (text_pos self) + dx, snd (text_pos self) + dy)\<rparr>)"

definition point_in_text_bbox :: "platform \<Rightarrow> quote_studio \<Rightarrow> int \<Rightarrow> int \<Rightarrow> bool" where
  "point_in_text_bbox env self x y =
     (case compute_text_bbox env self (fst (text_pos self)) (snd (text_pos self)) of
        None \<Rightarrow> False
      | Some (x0, y0, x1, y1) \<Rightarrow> (x0 \<le> x \<and> x \<le> x1) \<and> (y0 \<le> y \<and> y \<le> y1))"

section \<open>Rendering\<close>

text \<open>The four shadow copies of a line, drawn in black under the line itself.\<close>

fun draw_shadows :: "platform \<Rightarrow> font \<Rightarrow> int \<times> int \<Rightarrow> pystr \<Rightarrow> (int \<times> int) list \<Rightarrow> image \<Rightarrow>
    py_exception + image" where
  "draw_shadows env fnt (x, yy) l [] img = Inr img"
| "draw_shadows env fnt (x, yy) l (off # offs) img =
     and_then (draw_text env img (x + fst off, yy + snd off) l fnt (0, 0, 0)) (\<lambda>img.
     draw_shadows env fnt (x, yy) l offs img)"

text \<open>
  The local function \<open>draw_lines\<close> of \<open>draw_text_with_shadow\<close>, on the image and the
  vertical cursor: a spacer line only moves the cursor.
\<close>

fun draw_lines :: "platform \<Rightarrow> font \<Rightarrow> rgb \<Rightarrow> bool \<Rightarrow> int \<Rightarrow> int \<Rightarrow> int \<Rightarrow> pystr list \<Rightarrow>
    image \<times> int \<Rightarrow> py_exception + image \<times> int" where
  "draw_lines env fnt color draw_shadow x line_spacing spacer_h [] (img, yy) = Inr (img, yy)"
| "draw_lines env fnt color draw_shadow x line_spacing spacer_h (l # ls) (img, yy) =
     (if l = [] then
        draw_lines env fnt color draw_shadow x line_spacing spacer_h ls (img, yy + spacer_h)
      else
        and_then (if draw_shadow
                  then draw_shadows env fnt (x, yy) l [(- 2, 2), (2, 2), (2, - 2), (- 2, - 2)] img
                  else Inr img) (\<lambda>img.
        and_then (draw_text env img (x, yy) l fnt color) (\<lambda>img.
        let lh = text_height fnt l
        in draw_lines env fnt color draw_shadow x line_spacing spacer_h ls
             (img, yy + lh + line_spacing))))"

text \<open>
  \<open>draw_text_with_shadow\<close> draws on the image it is given and returns the bounding box;
  the model returns the image drawn on with it.
\<close>

definition draw_text_with_shadow ::
    "platform \<Rightarrow> quote_studio \<Rightarrow> image \<Rightarrow> int \<times> int \<Rightarrow> font \<Rightarrow> rgb \<Rightarrow> bool \<Rightarrow>
     py_exception + image \<times> bbox" where
  "draw_text_with_shadow env self img position fnt color draw_shadow =
     (case position of (x, y) \<Rightarrow>
      let max_width = max_text_width img in
      case compute_text_layout self fnt max_width of
        (quote_lines, author_block_lines, (total_w, total_h), line_spacing, spacer_h) \<Rightarrow>
      and_then (draw_lines env fnt color draw_shadow x line_spacing spacer_h quote_lines (img, y))
        (\<lambda>(img, cur_y).
      and_then (if author_block_lines \<noteq> []
                then draw_lines env fnt color draw_shadow x line_spacing spacer_h
                       author_block_lines (img, cur_y)
                else Inr (img, cur_y))
        (\<lambda>(img, cur_y).
      Inr (img, (x, y, x + total_w, y + total_h)))))"

text \<open>
  \<open>compose_final\<close> returns the composed raster and stores the bounding box in the preview
  widget, as the rectangle \<open>(x, y, width, height)\<close>.
\<close>

definition compose_final :: "platform \<Rightarrow> quote_studio \<Rightarrow> bool \<Rightarrow> py_exception + image \<times> quote_studio" where
  "compose_final env self shadow_for_preview =
     and_then (apply_style env (base_image self) (current_style self)) (\<lambda>bg.
     let out = bg;
         fnt = pick_style_font env self (font_size self);
         draw_shadow = (shadow_for_preview \<and>
                        (current_style self = str ''Epic'' \<or> current_style self = str ''Noir''))
     in and_then (draw_text_with_shadow env self out (text_pos self) fnt (text_color self) draw_shadow)
          (\<lambda>(out, (x0, y0, x1, y1)).
     Inr (out, self\<lparr>preview := (preview self)\<lparr>text_bbox_img_coords := (x0, y0, x1 - x0, y1 - y0)\<rparr>\<rparr>)))"

text \<open>
  \<open>pil_to_qpixmap\<close> and \<open>update_preview_pixmap\<close>. The scaling of the pixmap to the widget
  and \<open>setPixmap\<close> are Qt's, one call of the platform.
\<close>

definition pil_to_qpixmap :: "platform \<Rightarrow> image \<Rightarrow> py_exception + image" where
  "pil_to_qpixmap env img =
     (let img = (case img_data img of L ls \<Rightarrow> convert_RGBA img | _ \<Rightarrow> img)
      in qpixmap_from_image env img)"

definition update_preview_pixmap :: "platform \<Rightarrow> quote_studio \<Rightarrow> py_exception + quote_studio" where
  "update_preview_pixmap env self =
     (case result_image self of
        None \<Rightarrow> Inr self
      | Some res \<Rightarrow>
          and_then (pil_to_qpixmap env res) (\<lambda>pix.
          if img_width pix = 0 \<or> img_height pix = 0 then Inr self
          else and_then (set_scaled_pixmap env pix (preview self)) (\<lambda>pv.
               Inr (self\<lparr>preview := pv\<rparr>))))"

section \<open>The recompute pass\<close>

text \<open>
  The handler of \<open>recompute\<close>: \<open>except Exception as ex: print("Render error:", ex)\<close>. The
  state is the one the failing statement left.
\<close>

definition render_error :: "quote_studio \<Rightarrow> py_exception \<Rightarrow> quote_studio" where
  "render_error self ex = self\<lparr>stdout := stdout self @ [''Render error: '' @ message ex]\<rparr>"

definition recompute :: "platform \<Rightarrow> quote_studio \<Rightarrow> quote_studio" where
  "recompute env self =
     (case apply_style env (base_image self) (current_style self) of
        Inl ex \<Rightarrow> render_error self ex
      | Inr bg \<Rightarrow>
          let self = self\<lparr>filtered_bg := bg\<rparr> in
          (case compose_final env self True of
             Inl ex \<Rightarrow> render_error self ex
           | Inr (out, self) \<Rightarrow>
               let self = self\<lparr>result_image := Some out\<rparr> in
               (case update_preview_pixmap env self of
                  Inl ex \<Rightarrow> render_error self ex
                | Inr self \<Rightarrow> self)))"

section \<open>Auxiliary notions and examples\<close>

text \<open>A word: non-empty and free of whitespace.\<close>

definition word :: "pystr \<Rightarrow> bool" where
  "word w \<longleftrightarrow> w \<noteq> [] \<and> (\<forall>c \<in> set w. \<not> isspace c)"

text \<open>A line within the width, or a single word of \<open>ws\<close> wider than it.\<close>

definition line_ok :: "font \<Rightarrow> int \<Rightarrow> pystr list \<Rightarrow> pystr \<Rightarrow> bool" where
  "line_ok fnt max_width ws l \<longleftrightarrow>
     text_width fnt l \<le> max_width \<or> (l \<in> set ws \<and> max_width < text_width fnt l)"

text \<open>A font whose boxes are well formed: left of right, top above bottom.\<close>

definition font_ok :: "font \<Rightarrow> bool" where
  "font_ok fnt \<longleftrightarrow> (\<forall>s. 0 \<le> text_width fnt s \<and> 0 \<le> text_height fnt s)"

text \<open>
  A platform for the examples: every enhancer and filter returns its argument, a blend
  returns its first image when the two images match in mode and size and raises otherwise,
  text drawing leaves the image as it is, and every font is \<open>fixed_font\<close>.
  \<open>failing_platform\<close> is the same with a contrast enhancer that raises.
\<close>

definition example_platform :: platform where
  "example_platform =
     \<lparr>contrast_enhance = (\<lambda>img f. Inr img),
      color_enhance = (\<lambda>img f. Inr img),
      brightness_enhance = (\<lambda>img f. Inr img),
      gaussian_blur = (\<lambda>img r. Inr img),
      unsharp_mask = (\<lambda>img r p t. Inr img),
      blend = (\<lambda>img ov a.
        if img_mode ov = img_mode img \<and> img_size ov = img_size img then Inr img
        else Inl (ValueError ''images do not match'')),
      draw_text = (\<lambda>img pos s fnt color. Inr img),
      find_font = (\<lambda>prefs sz. fixed_font),
      qpixmap_from_image = (\<lambda>img. Inr img),
      set_scaled_pixmap = (\<lambda>pix pv. Inr (pv\<lparr>pixmap := Some pix\<rparr>))\<rparr>"

definition failing_platform :: platform where
  "failing_platform =
     example_platform\<lparr>contrast_enhance := (\<lambda>img f. Inl (Exception ''unsupported mode''))\<rparr>"

text \<open>A platform on which drawing text raises.\<close>

definition no_draw_platform :: platform where
  "no_draw_platform =
     example_platform\<lparr>draw_text := (\<lambda>img pos s fnt color. Inl (Exception ''cannot draw''))\<rparr>"

text \<open>A 4 by 2 canvas of one grey, and the state of a fresh window on a canvas.\<close>

definition small_canvas :: image where
  "small_canvas = new_RGB (4, 2) (40, 40, 40)"

definition initial :: "image \<Rightarrow> quote_studio" where
  "initial img =
     \<lparr>base_image = img, filtered_bg = img, result_image = Some img,
      current_style = str ''None'', text_color = (255, 255, 255), font_size = 64,
      quote = [], author = [], text_pos = (60, 60),
      preview = \<lparr>text_bbox_img_coords = (0, 0, 0, 0), pixmap = None\<rparr>,
      stdout = []\<rparr>"

definition canvas :: image where
  "canvas = \<lparr>img_width = 1200, img_height = 800, img_data = RGB []\<rparr>"

text \<open>The components of a layout.\<close>

definition layout_quote_lines :: "layout \<Rightarrow> pystr list" where
  "layout_quote_lines lay = (case lay of (ql, al, sz, ls, sh) \<Rightarrow> ql)"

definition layout_author_block_lines :: "layout \<Rightarrow> pystr list" where
  "layout_author_block_lines lay = (case lay of (ql, al, sz, ls, sh) \<Rightarrow> al)"

definition layout_total_size :: "layout \<Rightarrow> int \<times> int" where
  "layout_total_size lay = (case lay of (ql, al, sz, ls, sh) \<Rightarrow> sz)"

definition layout_line_spacing :: "layout \<Rightarrow> int" where
  "layout_line_spacing lay = (case lay of (ql, al, sz, ls, sh) \<Rightarrow> ls)"

definition layout_spacer_h :: "layout \<Rightarrow> int" where
  "layout_spacer_h lay = (case lay of (ql, al, sz, ls, sh) \<Rightarrow> sh)"

text \<open>
  The line spacing as the specification words it, \<open>max(6, round(font_size * 0.25))\<close>, with
  rounding to the nearest integer.
\<close>

definition spec_line_spacing :: "int \<Rightarrow> int" where
  "spec_line_spacing fs = max 6 (round (of_int fs * (25 / 100) :: rat))"

text \<open>
  The height of the author block alone: of the wrapped author lines, without the spacer.
\<close>

definition author_lines_of :: "quote_studio \<Rightarrow> font \<Rightarrow> int \<Rightarrow> pystr list" where
  "author_lines_of self fnt max_width =
     wrap_text (author_marker @ strip (author self)) fnt max_width"

definition author_block_height :: "quote_studio \<Rightarrow> font \<Rightarrow> int \<Rightarrow> int" where
  "author_block_height self fnt max_width =
     fst (snd (measure_multiline (author_lines_of self fnt max_width) fnt
       (layout_line_spacing (compute_text_layout self fnt max_width))))"

text \<open>The fresh window with the author "Jane Doe" and no quote.\<close>

definition jane_doe :: quote_studio where
  "jane_doe = (initial canvas)\<lparr>author := str ''Jane Doe''\<rparr>"

text \<open>The bounding box at the current anchor, as the clamp and the hit test compute it.\<close>

definition bbox_at :: "platform \<Rightarrow> quote_studio \<Rightarrow> bbox option" where
  "bbox_at env self = compute_text_bbox env self (fst (text_pos self)) (snd (text_pos self))"

text \<open>The quote "Hello world" anchored partly outside the 1200 by 800 canvas.\<close>

definition hello :: quote_studio where
  "hello = (initial canvas)\<lparr>quote := str ''Hello world'', text_pos := (- 30, 790)\<rparr>"

text \<open>The fresh window on the small canvas with the style Epic chosen.\<close>

definition epic :: quote_studio where
  "epic = (initial small_canvas)\<lparr>current_style := str ''Epic''\<rparr>"

text \<open>The Noir filter on its own: to \<open>RGB\<close>, to grey, and back to \<open>RGB\<close>.\<close>

definition noir :: "image \<Rightarrow> image" where
  "noir img = convert_RGB (grayscale (convert_RGB img))"

text \<open>
  What Pillow guarantees of the operations the style filter calls: on an \<open>RGB\<close> image an
  enhancer or a filter returns an \<open>RGB\<close> image, and \<open>Image.blend\<close> returns when its two
  images have the same mode and the same size (it raises \<open>ValueError\<close> otherwise).
\<close>

definition returns_on_RGB :: "platform \<Rightarrow> bool" where
  "returns_on_RGB env \<longleftrightarrow>
     (\<forall>img f. img_mode img = ''RGB'' \<longrightarrow>
        (\<exists>out. contrast_enhance env img f = Inr out \<and> img_mode out = ''RGB'')) \<and>
     (\<forall>img f. img_mode img = ''RGB'' \<longrightarrow>
        (\<exists>out. color_enhance env img f = Inr out \<and> img_mode out = ''RGB'')) \<and>
     (\<forall>img f. img_mode img = ''RGB'' \<longrightarrow>
        (\<exists>out. brightness_enhance env img f = Inr out \<and> img_mode out = ''RGB'')) \<and>
     (\<forall>img r. img_mode img = ''RGB'' \<longrightarrow>
        (\<exists>out. gaussian_blur env img r = Inr out \<and> img_mode out = ''RGB'')) \<and>
     (\<forall>img r p t. img_mode img = ''RGB'' \<longrightarrow>
        (\<exists>out. unsharp_mask env img r p t = Inr out \<and> img_mode out = ''RGB'')) \<and>
     (\<forall>img ov a. img_mode ov = img_mode img \<and> img_size ov = img_size img \<longrightarrow>
        (\<exists>out. blend env img ov a = Inr out \<and> img_mode out = img_mode img))"

text \<open>The channel swap of the Cyberpunk style: the bands split and merged as (b, g, r).\<close>

definition swap_RB :: "image \<Rightarrow> image" where
  "swap_RB img = (case img_data img of
     RGB px \<Rightarrow> img\<lparr>img_data := RGB (map (\<lambda>(r, g, b). (b, g, r)) px)\<rparr> | _ \<Rightarrow> img)"

section \<open>Properties of the text wrapper\<close>

lemma line_ok_mono: "line_ok fnt mw ws l \<Longrightarrow> set ws \<subseteq> set ws' \<Longrightarrow> line_ok fnt mw ws' l"
  by (auto simp: line_ok_def)

lemma line_ok_word: "w \<in> set ws \<Longrightarrow> line_ok fnt mw ws w"
  by (auto simp: line_ok_def)

lemma wrap_loop_line_ok:
  assumes "\<forall>l \<in> set lines. line_ok fnt mw W l"
    and "line = [] \<or> line_ok fnt mw W line"
    and "set ws \<subseteq> set W"
  shows "\<forall>l \<in> set (flush (wrap_loop fnt mw (lines, line) ws)). line_ok fnt mw W l"
  using assms
proof (induction ws arbitrary: lines line)
  case Nil
  then show ?case by (auto simp: flush_def)
next
  case (Cons w ws)
  let ?test = "if line = [] then w else line @ str '' '' @ w"
  show ?case
  proof (cases "text_width fnt ?test \<le> mw")
    case True
    have ok: "line_ok fnt mw W ?test"
      using True by (simp add: line_ok_def)
    have "\<forall>l \<in> set (flush (wrap_loop fnt mw (lines, ?test) ws)). line_ok fnt mw W l"
      using Cons.prems ok by (intro Cons.IH) auto
    with True show ?thesis by (simp add: Let_def)
  next
    case False
    have w: "line_ok fnt mw W w"
      using Cons.prems(3) by (intro line_ok_word) auto
    have "\<forall>l \<in> set (flush (wrap_loop fnt mw ((if line \<noteq> [] then lines @ [line] else lines), w) ws)).
            line_ok fnt mw W l"
      using Cons.prems w by (intro Cons.IH) auto
    with False show ?thesis by (simp add: Let_def)
  qed
qed

text \<open>
  C1. Every line the wrapper produces measures at most \<open>max_width\<close>, or it is a single word
  of the input whose own measured width exceeds \<open>max_width\<close>.
\<close>

theorem wrap_text_line_width:
  "\<forall>l \<in> set (wrap_text text fnt max_width).
     text_width fnt l \<le> max_width \<or>
     (l \<in> set (split text) \<and> max_width < text_width fnt l)"
proof (cases "text = []")
  case True
  then show ?thesis by (simp add: wrap_text_def)
next
  case False
  have "\<forall>l \<in> set (flush (wrap_loop fnt max_width ([], []) (split text))).
          line_ok fnt max_width (split text) l"
    by (rule wrap_loop_line_ok) auto
  with False show ?thesis by (simp add: wrap_text_def line_ok_def)
qed

text \<open>The definitions unfolded to evaluate the wrapper on a concrete text.\<close>

lemmas wrap_eval = wrap_text_def split_def str_def isspace_def flush_def text_width_def
  text_height_def fixed_font_def Let_def

theorem wrap_text_line_width_witness:
  "str ''bbbbbbbb'' \<in> set (wrap_text (str ''aa bbbbbbbb c'') fixed_font 50) \<and>
   (text_width fixed_font (str ''bbbbbbbb'') \<le> 50 \<or>
    (str ''bbbbbbbb'' \<in> set (split (str ''aa bbbbbbbb c'')) \<and>
     50 < text_width fixed_font (str ''bbbbbbbb'')))"
proof -
  have m: "str ''bbbbbbbb'' \<in> set (wrap_text (str ''aa bbbbbbbb c'') fixed_font 50)"
    by (simp add: wrap_eval)
  from wrap_text_line_width [of "str ''aa bbbbbbbb c''" fixed_font 50] m show ?thesis
    by blast
qed

subsection \<open>Words are preserved\<close>

lemma split_aux_words:
  "\<forall>c \<in> set acc. \<not> isspace c \<Longrightarrow> \<forall>w \<in> set (split_aux acc s). word w"
proof (induction s arbitrary: acc)
  case Nil
  then show ?case by (simp add: word_def)
next
  case (Cons c s)
  have nil: "\<forall>w \<in> set (split_aux [] s). word w"
    by (rule Cons.IH) simp
  show ?case
  proof (cases "isspace c")
    case True
    with nil Cons.prems show ?thesis by (simp add: word_def)
  next
    case False
    with Cons.prems have "\<forall>w \<in> set (split_aux (acc @ [c]) s). word w"
      by (intro Cons.IH) auto
    with False show ?thesis by simp
  qed
qed

lemma split_words: "\<forall>w \<in> set (split s). word w"
  unfolding split_def by (rule split_aux_words) simp

lemma split_aux_space:
  "isspace c \<Longrightarrow> split_aux acc (a @ c # b) = split_aux acc a @ split_aux [] b"
  by (induction a arbitrary: acc) auto

lemma split_aux_word:
  "\<forall>c \<in> set w. \<not> isspace c \<Longrightarrow> acc @ w \<noteq> [] \<Longrightarrow> split_aux acc w = [acc @ w]"
  by (induction w arbitrary: acc) auto

lemma split_word: "word w \<Longrightarrow> split w = [w]"
  using split_aux_word [of w "[]"] by (simp add: split_def word_def)

lemma isspace_32: "isspace 32"
  by (simp add: isspace_def)

lemma str_space: "str '' '' = [32]"
  by (simp add: str_def)

lemma split_append_word:
  "word w \<Longrightarrow> split (l @ str '' '' @ w) = split l @ [w]"
  using split_aux_space [of 32 "[]" l w] split_word [of w]
  by (simp add: split_def str_space isspace_32)

lemma join_Cons: "ys \<noteq> [] \<Longrightarrow> join sep (x # ys) = x @ sep @ join sep ys"
  by (cases ys) auto

lemma join_append:
  "xs \<noteq> [] \<Longrightarrow> ys \<noteq> [] \<Longrightarrow> join sep (xs @ ys) = join sep xs @ sep @ join sep ys"
  by (induction sep xs rule: join.induct) (auto simp: join_Cons)

lemma join_merge:
  "join sep (lines @ (line @ sep @ w) # ws) = join sep (lines @ line # w # ws)"
proof (cases "lines = []")
  case True
  then show ?thesis by (cases ws) (auto simp: join_Cons)
next
  case False
  have "join sep ((line @ sep @ w) # ws) = join sep (line # w # ws)"
    by (cases ws) (auto simp: join_Cons)
  with False show ?thesis by (simp add: join_append)
qed

lemma flush_Nil [simp]: "flush (lines, []) = lines"
  by (simp add: flush_def)

lemma flush_Cons [simp]: "line \<noteq> [] \<Longrightarrow> flush (lines, line) = lines @ [line]"
  by (simp add: flush_def)

lemma wrap_loop_join:
  assumes "\<forall>w \<in> set ws. w \<noteq> []"
  shows "join (str '' '') (flush (wrap_loop fnt mw (lines, line) ws)) =
         join (str '' '') (flush (lines, line) @ ws)"
  using assms
proof (induction ws arbitrary: lines line)
  case Nil
  then show ?case by simp
next
  case (Cons w ws)
  then have w: "w \<noteq> []" and ws: "\<forall>w \<in> set ws. w \<noteq> []" by auto
  note IH = Cons.IH [OF ws]
  show ?case
  proof (cases "line = []")
    case True
    with w show ?thesis by (simp add: IH)
  next
    case False
    with w show ?thesis by (simp add: IH Let_def join_merge)
  qed
qed

lemma wrap_loop_words:
  assumes "\<forall>w \<in> set ws. word w"
  shows "concat (map split (flush (wrap_loop fnt mw (lines, line) ws))) =
         concat (map split (flush (lines, line))) @ ws"
  using assms
proof (induction ws arbitrary: lines line)
  case Nil
  then show ?case by simp
next
  case (Cons w ws)
  then have w: "word w" and ws: "\<forall>w \<in> set ws. word w" by auto
  note IH = Cons.IH [OF ws]
  have ne: "w \<noteq> []" using w by (simp add: word_def)
  show ?case
  proof (cases "line = []")
    case True
    with w ne show ?thesis by (simp add: IH split_word)
  next
    case False
    with w ne show ?thesis by (simp add: IH Let_def split_append_word split_word)
  qed
qed

text \<open>
  C2. Joining the lines of the wrapper with single spaces gives the input split on
  whitespace and joined with single spaces; and the words of the lines, in order, are the
  words of the input: none dropped, duplicated or split.
\<close>

theorem wrap_text_join:
  "join (str '' '') (wrap_text text fnt max_width) = join (str '' '') (split text) \<and>
   concat (map split (wrap_text text fnt max_width)) = split text"
proof (cases "text = []")
  case True
  then show ?thesis by (simp add: wrap_text_def split_def)
next
  case False
  have ne: "\<forall>w \<in> set (split text). w \<noteq> []"
    using split_words [of "text"] by (auto simp: word_def)
  show ?thesis
    using False wrap_loop_join [OF ne, of fnt max_width "[]" "[]"]
      wrap_loop_words [OF split_words, of fnt max_width "[]" "[]" "text"]
    by (simp add: wrap_text_def)
qed

subsection \<open>The measurer\<close>

lemma measure_loop_heights:
  "snd (measure_loop fnt (width, hs) ls) = hs @ map (text_height fnt) ls"
  by (induction ls arbitrary: width hs)
    (auto simp: text_height_def Let_def split: prod.splits)

lemma measure_loop_width:
  "fst (measure_loop fnt (width, hs) ls) = Max (insert width (text_width fnt ` set ls))"
proof (induction ls arbitrary: width hs)
  case Nil
  then show ?case by simp
next
  case (Cons l ls)
  have "Max (insert (max width (text_width fnt l)) (text_width fnt ` set ls)) =
        Max (insert width (insert (text_width fnt l) (text_width fnt ` set ls)))"
    by (cases "ls = []") (simp_all add: max.assoc)
  then show ?case
    by (simp add: Cons.IH text_width_def Let_def split: prod.splits)
qed

lemma measure_multiline_eq:
  "measure_multiline lines fnt S =
     (Max (insert 0 (text_width fnt ` set lines)),
      (if lines \<noteq> [] then sum_list (map (text_height fnt) lines) + S * (int (length lines) - 1)
       else 0),
      map (text_height fnt) lines)"
proof -
  obtain w hs where m: "measure_loop fnt (0, []) lines = (w, hs)"
    by (cases "measure_loop fnt (0, []) lines")
  from m measure_loop_heights [of fnt 0 "[]" lines] have hs: "hs = map (text_height fnt) lines"
    by simp
  from m measure_loop_width [of fnt 0 "[]" lines]
  have w: "w = Max (insert 0 (text_width fnt ` set lines))"
    by simp
  show ?thesis
    by (simp add: measure_multiline_def m hs w)
qed

text \<open>
  C5. For no line the measurer returns width 0 and height 0. For at least one line the
  height is the sum of the measured line heights plus the spacing times the number of
  lines less one. The width is the greatest of 0 and the measured line widths, hence the
  greatest measured line width when there is a line and no measured width is negative.
\<close>

theorem measure_multiline_total:
  "measure_multiline [] fnt S = (0, 0, []) \<and>
   (lines \<noteq> [] \<longrightarrow>
      fst (snd (measure_multiline lines fnt S)) =
        sum_list (map (text_height fnt) lines) + S * (int (length lines) - 1)) \<and>
   fst (measure_multiline lines fnt S) = Max (insert 0 (text_width fnt ` set lines)) \<and>
   (lines \<noteq> [] \<and> (\<forall>l \<in> set lines. 0 \<le> text_width fnt l) \<longrightarrow>
      fst (measure_multiline lines fnt S) = Max (text_width fnt ` set lines))"
proof -
  have "Max (insert 0 (text_width fnt ` set lines)) = Max (text_width fnt ` set lines)"
    if "lines \<noteq> []" and "\<forall>l \<in> set lines. 0 \<le> text_width fnt l"
  proof -
    from that obtain l where "l \<in> set lines" "0 \<le> text_width fnt l"
      by (cases lines) auto
    then have "0 \<le> Max (text_width fnt ` set lines)"
      by (meson List.finite_set Max_ge finite_imageI imageI order_trans)
    with that(1) show ?thesis
      by (simp add: max_def)
  qed
  then show ?thesis
    by (simp add: measure_multiline_eq)
qed

theorem measure_multiline_total_witness:
  "measure_multiline [] fixed_font 8 = (0, 0, []) \<and>
   fst (snd (measure_multiline [str ''ab'', str ''abcd'', str ''a''] fixed_font 8)) = 76 \<and>
   fst (measure_multiline [str ''ab'', str ''abcd'', str ''a''] fixed_font 8) = 40"
  using measure_multiline_total [of fixed_font 8 "[str ''ab'', str ''abcd'', str ''a'']"]
  by (simp add: text_height_def text_width_def fixed_font_def str_def)

subsection \<open>The layout composer\<close>

lemma py_int_quarter: "0 \<le> n \<Longrightarrow> py_int (of_int n * (25 / 100)) = n div 4"
proof -
  assume n: "0 \<le> n"
  have "(of_int n * (25 / 100) :: rat) = of_int n / of_int 4" by simp
  then have "\<lfloor>of_int n * (25 / 100) :: rat\<rfloor> = n div 4"
    by (simp only: floor_divide_of_int_eq)
  with n show ?thesis by (simp add: py_int_def)
qed

lemma floor_numeral_div:
  "\<lfloor>(numeral a :: rat) / numeral b\<rfloor> = numeral a div numeral b"
  using floor_divide_of_int_eq [of "numeral a" "numeral b", where ?'a = rat] by simp

lemma layout_line_spacing_eq:
  "layout_line_spacing (compute_text_layout self fnt mw) =
     max 6 (py_int (of_int (font_size self) * (25 / 100)))"
  by (simp add: compute_text_layout_def layout_line_spacing_def Let_def split: prod.splits)

lemmas layout_eval = compute_text_layout_def measure_multiline_def wrap_eval py_int_def
  initial_def canvas_def jane_doe_def author_marker_def strip_def
  layout_line_spacing_def layout_total_size_def layout_author_block_lines_def
  layout_spacer_h_def layout_quote_lines_def author_block_height_def author_lines_of_def

text \<open>
  C4 as stated fails: at font size 27 the product is 6.75, which the source truncates to 6
  and rounding to the nearest integer takes to 7.
\<close>

theorem line_spacing_round_counterexample:
  "layout_line_spacing (compute_text_layout ((initial canvas)\<lparr>font_size := 27\<rparr>) fixed_font 1080) = 6 \<and>
   spec_line_spacing 27 = 7"
  by (simp add: layout_line_spacing_eq py_int_def spec_line_spacing_def round_def
      floor_numeral_div)

text \<open>
  C4, amended. For every font size from 10 to 200 the line spacing is the greater of 6 and
  the product of the font size with 0.25 truncated to an integer (rounded down), that is
  of 6 and the font size divided by 4 without remainder.
\<close>

theorem line_spacing_truncates:
  "10 \<le> font_size self \<Longrightarrow> font_size self \<le> 200 \<Longrightarrow>
   layout_line_spacing (compute_text_layout self fnt max_width) =
     max 6 \<lfloor>of_int (font_size self) * (25 / 100) :: rat\<rfloor> \<and>
   layout_line_spacing (compute_text_layout self fnt max_width) = max 6 (font_size self div 4)"
proof -
  assume "10 \<le> font_size self" "font_size self \<le> 200"
  then have n: "0 \<le> font_size self" by simp
  have "py_int (of_int (font_size self) * (25 / 100)) = \<lfloor>of_int (font_size self) * (25 / 100) :: rat\<rfloor>"
    using n by (simp add: py_int_def)
  with py_int_quarter [OF n] show ?thesis
    by (simp add: layout_line_spacing_eq)
qed

theorem line_spacing_truncates_witness:
  "(10::int) \<le> 27 \<and> (27::int) \<le> 200 \<and>
   layout_line_spacing (compute_text_layout ((initial canvas)\<lparr>font_size := 27\<rparr>) fixed_font 1080) = 6"
  using line_spacing_truncates [of "(initial canvas)\<lparr>font_size := 27\<rparr>" fixed_font 1080]
  by simp

subsection \<open>The author block without a quote\<close>

lemma wrap_loop_nonempty:
  assumes "\<forall>l \<in> set lines. l \<noteq> []"
  shows "\<forall>l \<in> set (flush (wrap_loop fnt mw (lines, line) ws)). l \<noteq> []"
  using assms
proof (induction ws arbitrary: lines line)
  case Nil
  then show ?case by (auto simp: flush_def)
next
  case (Cons w ws)
  have keep: "\<forall>l \<in> set (flush (wrap_loop fnt mw (lines, line') ws)). l \<noteq> []" for line'
    using Cons.prems by (intro Cons.IH)
  have push: "\<forall>l \<in> set (flush (wrap_loop fnt mw (lines @ [line], line') ws)). l \<noteq> []"
    if "line \<noteq> []" for line'
    using Cons.prems that by (intro Cons.IH) auto
  show ?case
    using keep push by (simp add: Let_def)
qed

lemma wrap_text_nonempty: "\<forall>l \<in> set (wrap_text t fnt mw). l \<noteq> []"
  using wrap_loop_nonempty [of "[]" fnt mw "[]" "split t"]
  by (simp add: wrap_text_def)

lemma filter_wrap_text: "filter (\<lambda>l. l \<noteq> []) (wrap_text t fnt mw) = wrap_text t fnt mw"
  using wrap_text_nonempty [of t fnt mw] by (simp add: filter_id_conv)

text \<open>
  C3 as stated fails: with no quote and the author "Jane Doe", the author block starts
  with a spacer line, and the total height 58 is the spacer height 38 above the height 20
  of the author block.
\<close>

theorem author_only_spacer_counterexample:
  "quote jane_doe = [] \<and> strip (author jane_doe) \<noteq> [] \<and>
   hd (layout_author_block_lines (compute_text_layout jane_doe fixed_font 1080)) = [] \<and>
   tl (layout_author_block_lines (compute_text_layout jane_doe fixed_font 1080)) =
     author_lines_of jane_doe fixed_font 1080 \<and>
   layout_spacer_h (compute_text_layout jane_doe fixed_font 1080) = 38 \<and>
   snd (layout_total_size (compute_text_layout jane_doe fixed_font 1080)) = 58 \<and>
   author_block_height jane_doe fixed_font 1080 = 20"
  by (simp add: layout_eval floor_numeral_div)

lemma measure_multiline_Nil: "measure_multiline [] fnt S = (0, 0, [])"
  by (simp add: measure_multiline_def)

lemma py_int_six_tenths: "0 \<le> n \<Longrightarrow> py_int (of_int n * (6 / 10)) = n * 6 div 10"
proof -
  assume n: "0 \<le> n"
  have "(of_int n * (6 / 10) :: rat) = of_int (n * 6) / of_int 10" by simp
  then have "\<lfloor>of_int n * (6 / 10) :: rat\<rfloor> = n * 6 div 10"
    by (simp only: floor_divide_of_int_eq)
  with n show ?thesis by (simp add: py_int_def)
qed

text \<open>
  C3, amended. When the quote is empty and the trimmed author is not, the layout has no
  quote line, its author block is one spacer line followed by the wrapped author lines,
  the spacer height is the font size times 0.6 truncated to an integer, and the total
  height is the spacer height plus the height of the author block.
\<close>

theorem author_only_layout:
  assumes "quote self = []" and "strip (author self) \<noteq> []"
  shows "layout_quote_lines (compute_text_layout self fnt max_width) = [] \<and>
    layout_author_block_lines (compute_text_layout self fnt max_width) =
      [] # author_lines_of self fnt max_width \<and>
    layout_spacer_h (compute_text_layout self fnt max_width) =
      py_int (of_int (font_size self) * (6 / 10)) \<and>
    snd (layout_total_size (compute_text_layout self fnt max_width)) =
      layout_spacer_h (compute_text_layout self fnt max_width) +
      author_block_height self fnt max_width"
  using assms
  by (simp add: compute_text_layout_def measure_multiline_Nil Let_def filter_wrap_text
      layout_quote_lines_def layout_author_block_lines_def layout_spacer_h_def
      layout_total_size_def layout_line_spacing_def author_block_height_def author_lines_of_def
      split: prod.splits)

theorem author_only_layout_witness:
  "quote jane_doe = [] \<and> strip (author jane_doe) \<noteq> [] \<and>
   layout_author_block_lines (compute_text_layout jane_doe fixed_font 1080) =
     [[], author_marker @ str ''Jane Doe''] \<and>
   layout_spacer_h (compute_text_layout jane_doe fixed_font 1080) = 38 \<and>
   snd (layout_total_size (compute_text_layout jane_doe fixed_font 1080)) =
     38 + author_block_height jane_doe fixed_font 1080"
proof -
  have q: "quote jane_doe = []" and a: "strip (author jane_doe) \<noteq> []"
    by (simp_all add: jane_doe_def initial_def strip_def str_def isspace_def)
  have l: "author_lines_of jane_doe fixed_font 1080 = [author_marker @ str ''Jane Doe'']"
    by (simp add: layout_eval)
  have f: "py_int (of_int (font_size jane_doe) * (6 / 10)) = 38"
    by (simp add: jane_doe_def initial_def py_int_def floor_numeral_div)
  from author_only_layout [OF q a, of fixed_font 1080] q a l f show ?thesis
    by simp
qed

subsection \<open>Bounding box, clamp and hit test\<close>

lemma compute_text_layout_text_pos:
  "compute_text_layout (self\<lparr>text_pos := p\<rparr>) fnt mw = compute_text_layout self fnt mw"
  by (simp add: compute_text_layout_def cong: if_cong)

lemma compute_text_bbox_text_pos:
  "compute_text_bbox env (self\<lparr>text_pos := p\<rparr>) x y = compute_text_bbox env self x y"
  by (simp add: compute_text_bbox_def compute_text_layout_text_pos pick_style_font_def)

lemma compute_text_bbox_shift:
  "compute_text_bbox env self x y = Some (x0, y0, x1, y1) \<Longrightarrow>
   compute_text_bbox env self (x + dx) (y + dy) = Some (x0 + dx, y0 + dy, x1 + dx, y1 + dy)"
  by (auto simp: compute_text_bbox_def Let_def split: prod.splits if_splits)

lemma compute_text_bbox_origin:
  "compute_text_bbox env self x y = Some (x0, y0, x1, y1) \<Longrightarrow> x0 = x \<and> y0 = y"
  by (auto simp: compute_text_bbox_def Let_def split: prod.splits if_splits)

lemma py_int_nonneg: "0 \<le> q \<Longrightarrow> 0 \<le> py_int q"
  by (simp add: py_int_def)

lemma measured_height_nonneg:
  assumes "font_ok fnt" and "0 \<le> S"
  shows "0 \<le> fst (snd (measure_multiline lines fnt S))"
proof -
  have "0 \<le> sum_list (map (text_height fnt) lines)"
    using assms(1) by (intro sum_list_nonneg) (auto simp: font_ok_def)
  moreover have "0 \<le> S * (int (length lines) - 1)" if "lines \<noteq> []"
    using that assms(2) by (cases lines) auto
  ultimately show ?thesis
    by (simp add: measure_multiline_eq)
qed

lemma measured_width_nonneg: "0 \<le> fst (measure_multiline lines fnt S)"
  by (simp add: measure_multiline_eq)

lemma measured_heights_nonneg:
  "font_ok fnt \<Longrightarrow> \<forall>h \<in> set (snd (snd (measure_multiline lines fnt S))). 0 \<le> h"
  by (auto simp: measure_multiline_eq font_ok_def)

lemma layout_total_nonneg:
  assumes "font_ok fnt" and "0 \<le> font_size self"
    and "compute_text_layout self fnt mw = (ql, al, (tw, th), ls, sh)"
  shows "0 \<le> tw \<and> 0 \<le> th"
proof -
  define S where "S = max 6 (py_int (of_int (font_size self) * (25 / 100)))"
  define Q where "Q = measure_multiline (if quote self \<noteq> [] then wrap_text (quote self) fnt mw else []) fnt S"
  define A where "A = measure_multiline (filter (\<lambda>l. l \<noteq> [])
    (if strip (author self) \<noteq> [] then [] # wrap_text (author_marker @ strip (author self)) fnt mw else [])) fnt S"
  have S: "0 \<le> S" by (simp add: S_def)
  have q: "0 \<le> fst Q" "0 \<le> fst (snd Q)" "\<forall>h \<in> set (snd (snd Q)). 0 \<le> h"
    unfolding Q_def
    using measured_width_nonneg measured_height_nonneg [OF assms(1) S]
      measured_heights_nonneg [OF assms(1)] by blast+
  have a: "0 \<le> fst A" "0 \<le> fst (snd A)"
    unfolding A_def
    using measured_width_nonneg measured_height_nonneg [OF assms(1) S] by blast+
  have l: "0 \<le> py_int (of_int (last (snd (snd Q))) * (6 / 10))" if "snd (snd Q) \<noteq> []"
    using that q(3) by (intro py_int_nonneg) (simp add: last_in_set)
  have f: "0 \<le> py_int (of_int (font_size self) * (6 / 10))"
    using assms(2) by (intro py_int_nonneg) simp
  obtain qw qh qhs where Qe: "Q = (qw, qh, qhs)" by (cases Q)
  obtain aw ah ahs where Ae: "A = (aw, ah, ahs)" by (cases A)
  from assms(3) have "tw = max qw aw"
    and "th = qh + (if strip (author self) \<noteq> []
           then (if qhs \<noteq> [] then py_int (of_int (last qhs) * (6 / 10))
                 else py_int (of_int (font_size self) * (6 / 10))) else 0) + ah"
    using Qe Ae unfolding compute_text_layout_def Q_def A_def S_def
    by (auto simp: Let_def split: if_splits)
  with q a l f Qe Ae show ?thesis
    by (auto split: if_splits)
qed

lemma bbox_well_formed:
  assumes "font_ok (pick_style_font env self (font_size self))" and "0 \<le> font_size self"
    and "compute_text_bbox env self x y = Some (x0, y0, x1, y1)"
  shows "x0 \<le> x1 \<and> y0 \<le> y1"
proof -
  obtain ql al tw th ls sh where
    L: "compute_text_layout self (pick_style_font env self (font_size self))
          (max_text_width (filtered_bg self)) = (ql, al, (tw, th), ls, sh)"
    by (metis prod_cases5 surj_pair)
  from layout_total_nonneg [OF assms(1,2) L] assms(3) L show ?thesis
    by (auto simp: compute_text_bbox_def Let_def split: if_splits)
qed

text \<open>
  C6. When the bounding box is no wider and no higher than the canvas, the clamp moves the
  anchor so that the box, of unchanged size, lies within the canvas; and a box that lies
  within the canvas already leaves the state, hence the anchor, as it is.
\<close>

theorem clamp_text_within_bounds:
  assumes "bbox_at env self = Some (x0, y0, x1, y1)"
    and "x1 - x0 \<le> int (img_width (base_image self))"
    and "y1 - y0 \<le> int (img_height (base_image self))"
  shows "(\<exists>x0' y0' x1' y1'.
      bbox_at env (clamp_text_within env self) = Some (x0', y0', x1', y1') \<and>
      x1' - x0' = x1 - x0 \<and> y1' - y0' = y1 - y0 \<and>
      0 \<le> x0' \<and> x1' \<le> int (img_width (base_image self)) \<and>
      0 \<le> y0' \<and> y1' \<le> int (img_height (base_image self))) \<and>
    (0 \<le> x0 \<and> x1 \<le> int (img_width (base_image self)) \<and>
     0 \<le> y0 \<and> y1 \<le> int (img_height (base_image self)) \<longrightarrow>
     clamp_text_within env self = self)"
proof -
  let ?W = "int (img_width (base_image self))" and ?H = "int (img_height (base_image self))"
  let ?x = "fst (text_pos self)" and ?y = "snd (text_pos self)"
  define dx where "dx = (if x1 > ?W then ?W - x1 else if x0 < 0 then - x0 else 0)"
  define dy where "dy = (if y1 > ?H then ?H - y1 else if y0 < 0 then - y0 else 0)"
  from assms(1) have b: "compute_text_bbox env self ?x ?y = Some (x0, y0, x1, y1)"
    by (simp add: bbox_at_def)
  have c: "clamp_text_within env self = self\<lparr>text_pos := (?x + dx, ?y + dy)\<rparr>"
    by (simp add: clamp_text_within_def img_size_def b dx_def dy_def Let_def)
  have "bbox_at env (clamp_text_within env self) = Some (x0 + dx, y0 + dy, x1 + dx, y1 + dy)"
    by (simp add: c bbox_at_def compute_text_bbox_text_pos compute_text_bbox_shift [OF b])
  moreover have "0 \<le> x0 + dx \<and> x1 + dx \<le> ?W \<and> 0 \<le> y0 + dy \<and> y1 + dy \<le> ?H"
    using assms(2,3) by (auto simp: dx_def dy_def)
  ultimately have inside: "\<exists>x0' y0' x1' y1'.
      bbox_at env (clamp_text_within env self) = Some (x0', y0', x1', y1') \<and>
      x1' - x0' = x1 - x0 \<and> y1' - y0' = y1 - y0 \<and>
      0 \<le> x0' \<and> x1' \<le> ?W \<and> 0 \<le> y0' \<and> y1' \<le> ?H"
    by simp
  have "0 \<le> x0 \<and> x1 \<le> ?W \<and> 0 \<le> y0 \<and> y1 \<le> ?H \<longrightarrow> clamp_text_within env self = self"
    by (auto simp: c dx_def dy_def)
  with inside show ?thesis by blast
qed

lemmas state_eval = bbox_at_def compute_text_bbox_def pick_style_font_def example_platform_def
  max_text_width_def margin_ratio_def hello_def img_size_def clamp_text_within_def
  point_in_text_bbox_def

lemma hello_bbox: "bbox_at example_platform hello = Some (- 30, 790, 80, 810)"
  by (simp add: state_eval layout_eval floor_numeral_div)

theorem clamp_text_within_bounds_witness:
  "bbox_at example_platform hello = Some (- 30, 790, 80, 810) \<and>
   bbox_at example_platform (clamp_text_within example_platform hello) = Some (0, 780, 110, 800) \<and>
   text_pos (clamp_text_within example_platform hello) = (0, 780)"
proof -
  have c: "clamp_text_within example_platform hello = hello\<lparr>text_pos := (0, 780)\<rparr>"
    using hello_bbox
    by (simp add: clamp_text_within_def bbox_at_def img_size_def)
      (simp add: hello_def initial_def canvas_def)
  have s: "int (img_width (base_image hello)) = 1200" "int (img_height (base_image hello)) = 800"
    by (simp_all add: hello_def initial_def canvas_def)
  have b: "bbox_at example_platform (hello\<lparr>text_pos := (0, 780)\<rparr>) = Some (0, 780, 110, 800)"
    using compute_text_bbox_shift [OF hello_bbox [unfolded bbox_at_def], of 30 "- 10"]
    by (simp add: bbox_at_def compute_text_bbox_text_pos) (simp add: hello_def initial_def)
  from clamp_text_within_bounds [OF hello_bbox] s c b hello_bbox show ?thesis
    by simp
qed

text \<open>
  C7. With a bounding box present, the hit test holds of a point exactly when the point
  lies within the box, bounds included. So no point strictly outside the box is hit; and
  the two corners are hit, the box of a font with well-formed measurements being well
  formed.
\<close>

theorem point_in_text_bbox_iff:
  assumes "bbox_at env self = Some (x0, y0, x1, y1)"
  shows "(point_in_text_bbox env self x y \<longleftrightarrow> x0 \<le> x \<and> x \<le> x1 \<and> y0 \<le> y \<and> y \<le> y1) \<and>
    (x < x0 \<or> x1 < x \<or> y < y0 \<or> y1 < y \<longrightarrow> \<not> point_in_text_bbox env self x y) \<and>
    (font_ok (pick_style_font env self (font_size self)) \<and> 0 \<le> font_size self \<longrightarrow>
       point_in_text_bbox env self x0 y0 \<and> point_in_text_bbox env self x1 y1)"
proof -
  from assms have b: "compute_text_bbox env self (fst (text_pos self)) (snd (text_pos self)) =
      Some (x0, y0, x1, y1)"
    by (simp add: bbox_at_def)
  have iff: "point_in_text_bbox env self u v \<longleftrightarrow> x0 \<le> u \<and> u \<le> x1 \<and> y0 \<le> v \<and> v \<le> y1" for u v
    by (simp add: point_in_text_bbox_def b)
  have "x0 \<le> x1 \<and> y0 \<le> y1"
    if "font_ok (pick_style_font env self (font_size self))" and "0 \<le> font_size self"
    using bbox_well_formed [OF that b] .
  then show ?thesis
    by (auto simp: iff)
qed

lemma fixed_font_ok: "font_ok fixed_font"
  by (simp add: font_ok_def text_width_def text_height_def fixed_font_def)

theorem point_in_text_bbox_iff_witness:
  "bbox_at example_platform hello = Some (- 30, 790, 80, 810) \<and>
   point_in_text_bbox example_platform hello 0 800 \<and>
   \<not> point_in_text_bbox example_platform hello 81 800 \<and>
   point_in_text_bbox example_platform hello (- 30) 790 \<and>
   point_in_text_bbox example_platform hello 80 810"
proof -
  have f: "font_ok (pick_style_font example_platform hello (font_size hello))"
    using fixed_font_ok by (simp add: pick_style_font_def example_platform_def)
  have n: "0 \<le> font_size hello"
    by (simp add: hello_def initial_def)
  from point_in_text_bbox_iff [OF hello_bbox, of 0 800] point_in_text_bbox_iff [OF hello_bbox, of 81 800]
    f n hello_bbox
  show ?thesis by simp
qed

subsection \<open>The style filter\<close>

lemma convert_RGB_size [simp]: "img_size (convert_RGB img) = img_size img"
  by (simp add: convert_RGB_def img_size_def split: pixels.splits)

lemma grayscale_size [simp]: "img_size (grayscale img) = img_size img"
  by (simp add: grayscale_def img_size_def split: pixels.splits)

lemma convert_RGB_is_RGB: "\<exists>px. img_data (convert_RGB img) = RGB px"
  by (simp add: convert_RGB_def split: pixels.splits)

lemma convert_RGB_of_RGB: "img_data img = RGB px \<Longrightarrow> convert_RGB img = img"
  by (simp add: convert_RGB_def)

lemma luma_grey: "luma (l, l, l) = l"
proof -
  have "unat l * 19595 + unat l * 38470 + unat l * 7471 + 32768 = unat l * 65536 + 32768"
    by simp
  then have "(unat l * 19595 + unat l * 38470 + unat l * 7471 + 32768) div 65536 = unat l"
    by simp
  then show ?thesis
    by (simp add: luma_def)
qed

lemma style_names_distinct:
  "str ''Noir'' \<noteq> str ''None''" "str ''Noir'' \<noteq> str ''Epic''"
  by (simp_all add: str_def)

lemma apply_style_Noir: "apply_style env background (str ''Noir'') = Inr (noir background)"
  by (simp add: apply_style_def noir_def style_names_distinct)

lemma noir_data:
  "\<exists>ls. img_data (noir img) = RGB (map (\<lambda>l. (l, l, l)) ls)"
proof -
  obtain px where px: "img_data (convert_RGB img) = RGB px"
    using convert_RGB_is_RGB by blast
  then have "img_data (noir img) = RGB (map (\<lambda>l. (l, l, l)) (map luma px))"
    by (simp add: noir_def grayscale_def convert_RGB_def [of "_\<lparr>img_data := _\<rparr>"] o_def)
  then show ?thesis by blast
qed

lemma noir_idem: "noir (noir img) = noir img"
proof -
  obtain ls where ls: "img_data (noir img) = RGB (map (\<lambda>l. (l, l, l)) ls)"
    using noir_data by blast
  have c: "convert_RGB (noir img) = noir img"
    using ls by (rule convert_RGB_of_RGB)
  have g: "grayscale (noir img) = (noir img)\<lparr>img_data := L ls\<rparr>"
    using ls by (simp add: grayscale_def o_def luma_grey)
  have "noir (noir img) = convert_RGB ((noir img)\<lparr>img_data := L ls\<rparr>)"
    unfolding noir_def [of "noir img"] c g ..
  also have "\<dots> = (noir img)\<lparr>img_data := RGB (map (\<lambda>l. (l, l, l)) ls)\<rparr>"
    by (simp add: convert_RGB_def)
  also have "\<dots> = noir img"
    using ls by (metis image.surjective image.update_convs(3) old.unit.exhaust)
  finally show ?thesis .
qed

text \<open>
  C8. The Noir style is idempotent: applied to any raster it returns a raster, and applied
  to that raster it returns the same raster again.
\<close>

theorem apply_style_Noir_idempotent:
  "apply_style env background (str ''Noir'') = Inr (noir background) \<and>
   apply_style env (noir background) (str ''Noir'') = Inr (noir background)"
  by (simp add: apply_style_Noir noir_idem)

subsection \<open>Sizes and the fall-through\<close>

lemma and_then_Inr: "and_then m f = Inr y \<longleftrightarrow> (\<exists>x. m = Inr x \<and> f x = Inr y)"
  by (cases m) (simp_all add: and_then_def)

lemma and_then_Inr_simp [simp]: "and_then (Inr x) f = f x"
  by (simp add: and_then_def)

lemma swap_RB_size [simp]: "img_size (swap_RB img) = img_size img"
  by (simp add: swap_RB_def img_size_def split: pixels.splits)

lemma zip3_swap:
  "zip (map (\<lambda>(r, g, b). b) px) (zip (map (\<lambda>(r, g, b). g) px) (map (\<lambda>(r, g, b). r) px)) =
   map (\<lambda>(r, g, b). (b, g, r)) px"
  by (induction px) auto

lemma cyberpunk_bands:
  assumes "img_data img = RGB px"
  shows "(case split_bands img of [r, g, b] \<Rightarrow> and_then (merge_RGB (b, g, r)) k
          | _ \<Rightarrow> Inl e) = k (swap_RB img)"
  using assms
  by (simp add: split_bands_def merge_RGB_def img_size_def swap_RB_def zip3_swap)

lemma apply_style_None: "apply_style env background (str ''None'') = Inr (convert_RGB background)"
  by (simp add: apply_style_def)

lemma apply_style_Epic:
  "apply_style env background (str ''Epic'') =
     and_then (contrast_enhance env (convert_RGB background) (3 / 2)) (\<lambda>img.
       gaussian_blur env img 3)"
  by (simp add: apply_style_def Let_def) (simp add: str_def)

lemma apply_style_Fancy:
  "apply_style env background (str ''Fancy'') = color_enhance env (convert_RGB background) (8 / 5)"
  by (simp add: apply_style_def Let_def) (simp add: str_def)

lemma apply_style_Cyberpunk:
  "apply_style env background (str ''Cyberpunk'') =
     and_then (color_enhance env (swap_RB (convert_RGB background)) (6 / 5)) (\<lambda>img.
       contrast_enhance env img (11 / 10))"
proof -
  obtain px where px: "img_data (convert_RGB background) = RGB px"
    using convert_RGB_is_RGB by blast
  have ne: "str ''Cyberpunk'' \<noteq> str ''None''" "str ''Cyberpunk'' \<noteq> str ''Epic''"
    "str ''Cyberpunk'' \<noteq> str ''Noir''" "str ''Cyberpunk'' \<noteq> str ''Fancy''"
    by (simp_all add: str_def)
  show ?thesis
    by (simp add: apply_style_def Let_def ne cyberpunk_bands [OF px])
qed

lemma apply_style_Phonk:
  "apply_style env background (str ''Phonk'') =
     and_then (brightness_enhance env (convert_RGB background) (3 / 4)) (\<lambda>img.
       and_then (blend env img (new_RGB (img_size img) (40, 0, 60)) (1 / 5)) (\<lambda>img.
         contrast_enhance env img (11 / 10)))"
proof -
  have ne: "str ''Phonk'' \<noteq> str ''None''" "str ''Phonk'' \<noteq> str ''Epic''"
    "str ''Phonk'' \<noteq> str ''Noir''" "str ''Phonk'' \<noteq> str ''Fancy''"
    "str ''Phonk'' \<noteq> str ''Cyberpunk''"
    by (simp_all add: str_def)
  show ?thesis
    by (simp add: apply_style_def Let_def ne)
qed

lemma apply_style_Tech:
  "apply_style env background (str ''Tech'') = unsharp_mask env (convert_RGB background) 2 200 3"
proof -
  have ne: "str ''Tech'' \<noteq> str ''None''" "str ''Tech'' \<noteq> str ''Epic''"
    "str ''Tech'' \<noteq> str ''Noir''" "str ''Tech'' \<noteq> str ''Fancy''"
    "str ''Tech'' \<noteq> str ''Cyberpunk''" "str ''Tech'' \<noteq> str ''Phonk''"
    by (simp_all add: str_def)
  show ?thesis
    by (simp add: apply_style_def Let_def ne)
qed

lemma apply_style_other:
  "style_name \<notin> set STYLES \<Longrightarrow> apply_style env background style_name = Inr (convert_RGB background)"
  by (simp add: apply_style_def STYLES_def Let_def)

lemma new_RGB_size [simp]: "img_size (new_RGB sz color) = sz"
  by (cases sz) (simp add: new_RGB_def img_size_def)

lemma style_cases:
  "style_name = str ''None'' \<or> style_name = str ''Epic'' \<or> style_name = str ''Noir'' \<or>
   style_name = str ''Fancy'' \<or> style_name = str ''Cyberpunk'' \<or>
   style_name = str ''Phonk'' \<or> style_name = str ''Tech'' \<or> style_name \<notin> set STYLES"
  by (simp add: STYLES_def) blast

lemma apply_style_size:
  assumes sp: "size_preserving env" and r: "apply_style env background style_name = Inr out"
  shows "img_size out = img_size background"
proof -
  have contrast: "img_size o' = img_size i" if "contrast_enhance env i f = Inr o'" for i f o'
    using sp that by (simp add: size_preserving_def)
  have color: "img_size o' = img_size i" if "color_enhance env i f = Inr o'" for i f o'
    using sp that by (simp add: size_preserving_def)
  have bright: "img_size o' = img_size i" if "brightness_enhance env i f = Inr o'" for i f o'
    using sp that by (simp add: size_preserving_def)
  have blur: "img_size o' = img_size i" if "gaussian_blur env i f = Inr o'" for i f o'
    using sp that by (simp add: size_preserving_def)
  have sharp: "img_size o' = img_size i" if "unsharp_mask env i a b c = Inr o'" for i a b c o'
    using sp that by (simp add: size_preserving_def)
  have blnd: "img_size o' = img_size i" if "blend env i ov a = Inr o'" for i ov a o'
    using sp that by (simp add: size_preserving_def)
  from style_cases [of style_name] consider
      "style_name = str ''None''" | "style_name = str ''Epic''" | "style_name = str ''Noir''"
    | "style_name = str ''Fancy''" | "style_name = str ''Cyberpunk''"
    | "style_name = str ''Phonk''" | "style_name = str ''Tech''" | "style_name \<notin> set STYLES"
    by blast
  then show ?thesis
  proof cases
    case 1
    with r show ?thesis by (auto simp: apply_style_None)
  next
    case 2
    with r obtain m where m: "contrast_enhance env (convert_RGB background) (3 / 2) = Inr m"
      and o: "gaussian_blur env m 3 = Inr out"
      by (auto simp: apply_style_Epic and_then_Inr)
    show ?thesis using contrast [OF m] blur [OF o] by simp
  next
    case 3
    with r have "out = noir background" by (simp add: apply_style_Noir)
    then show ?thesis by (simp add: noir_def)
  next
    case 4
    with r have o: "color_enhance env (convert_RGB background) (8 / 5) = Inr out"
      by (simp add: apply_style_Fancy)
    show ?thesis using color [OF o] by simp
  next
    case 5
    with r obtain m where m: "color_enhance env (swap_RB (convert_RGB background)) (6 / 5) = Inr m"
      and o: "contrast_enhance env m (11 / 10) = Inr out"
      by (auto simp: apply_style_Cyberpunk and_then_Inr)
    show ?thesis using color [OF m] contrast [OF o] by simp
  next
    case 6
    with r obtain m n where m: "brightness_enhance env (convert_RGB background) (3 / 4) = Inr m"
      and n: "blend env m (new_RGB (img_size m) (40, 0, 60)) (1 / 5) = Inr n"
      and o: "contrast_enhance env n (11 / 10) = Inr out"
      by (auto simp: apply_style_Phonk and_then_Inr)
    show ?thesis using bright [OF m] blnd [OF n] contrast [OF o] by simp
  next
    case 7
    with r have o: "unsharp_mask env (convert_RGB background) 2 200 3 = Inr out"
      by (simp add: apply_style_Tech)
    show ?thesis using sharp [OF o] by simp
  next
    case 8
    with r show ?thesis by (auto simp: apply_style_other)
  qed
qed

lemma and_then_returns:
  assumes "m = Inr x" and "\<exists>y. f x = Inr y"
  shows "\<exists>y. and_then m f = Inr y"
  using assms by (simp add: and_then_def)

lemma convert_RGB_mode [simp]: "img_mode (convert_RGB img) = ''RGB''"
  using convert_RGB_is_RGB [of img] by (auto simp: img_mode_def)

lemma swap_RB_mode [simp]: "img_mode (swap_RB img) = img_mode img"
  by (simp add: swap_RB_def img_mode_def split: pixels.splits)

lemma new_RGB_mode [simp]: "img_mode (new_RGB sz color) = ''RGB''"
  by (cases sz) (simp add: new_RGB_def img_mode_def)

text \<open>
  The overlay of the Phonk style is made with the size of the image it is blended with,
  in mode \<open>RGB\<close>: the two images of the blend match.
\<close>

lemma phonk_overlay_matches:
  assumes "img_mode m = ''RGB''"
  shows "img_mode (new_RGB (img_size m) (40, 0, 60)) = img_mode m \<and>
         img_size (new_RGB (img_size m) (40, 0, 60)) = img_size m"
  using assms by simp

lemma apply_style_returns:
  assumes nr: "returns_on_RGB env"
  shows "\<exists>out. apply_style env background style_name = Inr out"
proof -
  have contrast: "\<exists>out. contrast_enhance env i f = Inr out \<and> img_mode out = ''RGB''"
    if "img_mode i = ''RGB''" for i f
    using nr that by (simp add: returns_on_RGB_def)
  have color: "\<exists>out. color_enhance env i f = Inr out \<and> img_mode out = ''RGB''"
    if "img_mode i = ''RGB''" for i f
    using nr that by (simp add: returns_on_RGB_def)
  have bright: "\<exists>out. brightness_enhance env i f = Inr out \<and> img_mode out = ''RGB''"
    if "img_mode i = ''RGB''" for i f
    using nr that by (simp add: returns_on_RGB_def)
  have blur: "\<exists>out. gaussian_blur env i r = Inr out \<and> img_mode out = ''RGB''"
    if "img_mode i = ''RGB''" for i r
    using nr that by (simp add: returns_on_RGB_def)
  have sharp: "\<exists>out. unsharp_mask env i a b c = Inr out \<and> img_mode out = ''RGB''"
    if "img_mode i = ''RGB''" for i a b c
    using nr that by (simp add: returns_on_RGB_def)
  have blnd: "\<exists>out. blend env i ov a = Inr out \<and> img_mode out = img_mode i"
    if "img_mode ov = img_mode i \<and> img_size ov = img_size i" for i ov a
    using nr that by (simp add: returns_on_RGB_def)
  from style_cases [of style_name] consider
      "style_name = str ''None''" | "style_name = str ''Epic''" | "style_name = str ''Noir''"
    | "style_name = str ''Fancy''" | "style_name = str ''Cyberpunk''"
    | "style_name = str ''Phonk''" | "style_name = str ''Tech''" | "style_name \<notin> set STYLES"
    by blast
  then show ?thesis
  proof cases
    case 1
    then show ?thesis by (simp add: apply_style_None)
  next
    case 2
    obtain m where m: "contrast_enhance env (convert_RGB background) (3 / 2) = Inr m"
      and mm: "img_mode m = ''RGB''"
      using contrast [OF convert_RGB_mode] by blast
    obtain n where n: "gaussian_blur env m 3 = Inr n"
      using blur [OF mm] by blast
    show ?thesis unfolding 2 apply_style_Epic
      using m n by simp
  next
    case 3
    then show ?thesis by (simp add: apply_style_Noir)
  next
    case 4
    obtain m where m: "color_enhance env (convert_RGB background) (8 / 5) = Inr m"
      using color [OF convert_RGB_mode] by blast
    show ?thesis unfolding 4 apply_style_Fancy
      using m by simp
  next
    case 5
    have s: "img_mode (swap_RB (convert_RGB background)) = ''RGB''"
      by simp
    obtain m where m: "color_enhance env (swap_RB (convert_RGB background)) (6 / 5) = Inr m"
      and mm: "img_mode m = ''RGB''"
      using color [OF s] by blast
    obtain n where n: "contrast_enhance env m (11 / 10) = Inr n"
      using contrast [OF mm] by blast
    show ?thesis unfolding 5 apply_style_Cyberpunk
      using m n by simp
  next
    case 6
    obtain m where m: "brightness_enhance env (convert_RGB background) (3 / 4) = Inr m"
      and mm: "img_mode m = ''RGB''"
      using bright [OF convert_RGB_mode] by blast
    obtain n where n: "blend env m (new_RGB (img_size m) (40, 0, 60)) (1 / 5) = Inr n"
      and "img_mode n = img_mode m"
      using blnd [OF phonk_overlay_matches [OF mm]] by blast
    then have nn: "img_mode n = ''RGB''"
      using mm by simp
    obtain out where o: "contrast_enhance env n (11 / 10) = Inr out"
      using contrast [OF nn] by blast
    show ?thesis unfolding 6 apply_style_Phonk
      using m n o by simp
  next
    case 7
    obtain m where m: "unsharp_mask env (convert_RGB background) 2 200 3 = Inr m"
      using sharp [OF convert_RGB_mode] by blast
    show ?thesis unfolding 7 apply_style_Tech
      using m by simp
  next
    case 8
    then show ?thesis by (simp add: apply_style_other)
  qed
qed

text \<open>
  C10. For every style name, a platform whose operations keep the size gives a result of
  the width and height of the input, and the filter returns on a platform whose enhancers
  and filters return on \<open>RGB\<close> images and whose blend returns on two images of the same
  mode and size. For a name that is none of the seven styles the filter returns the input
  converted to \<open>RGB\<close>, which for an \<open>RGB\<close> input is the input itself.
\<close>

theorem apply_style_size_and_fallthrough:
  "(size_preserving env \<longrightarrow>
      (\<forall>out. apply_style env background style_name = Inr out \<longrightarrow>
         img_width out = img_width background \<and> img_height out = img_height background)) \<and>
   (returns_on_RGB env \<longrightarrow> (\<exists>out. apply_style env background style_name = Inr out)) \<and>
   (style_name \<notin> set STYLES \<longrightarrow>
      apply_style env background style_name = Inr (convert_RGB background) \<and>
      img_size (convert_RGB background) = img_size background \<and>
      (\<forall>px. img_data background = RGB px \<longrightarrow>
         apply_style env background style_name = Inr background))"
proof -
  have a: "img_width out = img_width background \<and> img_height out = img_height background"
    if "size_preserving env" and "apply_style env background style_name = Inr out" for out
    using apply_style_size [OF that] by (simp add: img_size_def)
  have b: "\<exists>out. apply_style env background style_name = Inr out" if "returns_on_RGB env"
    using apply_style_returns [OF that] .
  have c: "apply_style env background style_name = Inr background"
    if "style_name \<notin> set STYLES" and "img_data background = RGB px" for px
    using that by (simp add: apply_style_other convert_RGB_of_RGB)
  have d: "apply_style env background style_name = Inr (convert_RGB background)"
    if "style_name \<notin> set STYLES"
    using that by (rule apply_style_other)
  show ?thesis
  proof (intro conjI impI allI)
    fix out
    assume "size_preserving env" and "apply_style env background style_name = Inr out"
    then show "img_width out = img_width background" and "img_height out = img_height background"
      using a by blast+
  next
    assume "returns_on_RGB env"
    then show "\<exists>out. apply_style env background style_name = Inr out" by (rule b)
  next
    assume "style_name \<notin> set STYLES"
    then show "apply_style env background style_name = Inr (convert_RGB background)" by (rule d)
  next
    show "img_size (convert_RGB background) = img_size background" by simp
  next
    fix px
    assume "style_name \<notin> set STYLES" and "img_data background = RGB px"
    then show "apply_style env background style_name = Inr background" by (rule c)
  qed
qed

lemma example_platform_ok: "size_preserving example_platform" "returns_on_RGB example_platform"
  by (simp_all add: size_preserving_def returns_on_RGB_def example_platform_def)

theorem apply_style_size_and_fallthrough_witness:
  "size_preserving example_platform \<and> returns_on_RGB example_platform \<and>
   str ''Sepia'' \<notin> set STYLES \<and>
   apply_style example_platform small_canvas (str ''Sepia'') = Inr small_canvas \<and>
   (\<exists>out. apply_style example_platform small_canvas (str ''Phonk'') = Inr out \<and>
      img_width out = 4 \<and> img_height out = 2)"
proof -
  have n: "str ''Sepia'' \<notin> set STYLES"
    by (simp add: STYLES_def str_def)
  have d: "img_data small_canvas = RGB (replicate 8 (40, 40, 40))"
    and w: "img_width small_canvas = 4" "img_height small_canvas = 2"
    by (simp_all add: small_canvas_def new_RGB_def)
  note sepia = apply_style_size_and_fallthrough [of example_platform small_canvas "str ''Sepia''"]
  note phonk = apply_style_size_and_fallthrough [of example_platform small_canvas "str ''Phonk''"]
  from sepia n d have s: "apply_style example_platform small_canvas (str ''Sepia'') = Inr small_canvas"
    by blast
  from phonk example_platform_ok obtain out
    where o: "apply_style example_platform small_canvas (str ''Phonk'') = Inr out"
    by blast
  with phonk example_platform_ok(1)
  have "img_width out = img_width small_canvas \<and> img_height out = img_height small_canvas"
    by blast
  with o w have "\<exists>out. apply_style example_platform small_canvas (str ''Phonk'') = Inr out \<and>
      img_width out = 4 \<and> img_height out = 2"
    by auto
  with example_platform_ok n s show ?thesis by blast
qed

subsection \<open>The recompute pass\<close>

lemma recompute_filter_fails:
  assumes "apply_style env (base_image self) (current_style self) = Inl ex"
  shows "recompute env self = render_error self ex"
  using assms by (simp add: recompute_def)

lemma recompute_compose_fails:
  assumes "apply_style env (base_image self) (current_style self) = Inr bg"
    and "compose_final env (self\<lparr>filtered_bg := bg\<rparr>) True = Inl ex"
  shows "recompute env self = render_error (self\<lparr>filtered_bg := bg\<rparr>) ex"
  using assms by (simp add: recompute_def)

text \<open>
  The conversion for the display comes after the assignment of \<open>result_image\<close>: when it is
  the one that raises, the exception is caught as well and \<open>result_image\<close> is the raster
  just composed.
\<close>

lemma recompute_display_fails:
  assumes "apply_style env (base_image self) (current_style self) = Inr bg"
    and "compose_final env (self\<lparr>filtered_bg := bg\<rparr>) True = Inr (out, self')"
    and "update_preview_pixmap env (self'\<lparr>result_image := Some out\<rparr>) = Inl ex"
  shows "recompute env self = render_error (self'\<lparr>result_image := Some out\<rparr>) ex"
  using assms by (simp add: recompute_def)

text \<open>
  C9. When the style filter raises, or the composition after it (layout and drawing)
  raises, the recompute pass returns: the exception is caught and printed after
  \<open>Render error:\<close>, and \<open>result_image\<close> is the raster it was before the pass, as is the
  preview widget with its pixmap. Only \<open>filtered_bg\<close> and the output may differ from the
  state before the pass.
\<close>

theorem recompute_keeps_result_image:
  assumes "apply_style env (base_image self) (current_style self) = Inl ex \<or>
           (\<exists>bg. apply_style env (base_image self) (current_style self) = Inr bg \<and>
                 compose_final env (self\<lparr>filtered_bg := bg\<rparr>) True = Inl ex)"
  shows "result_image (recompute env self) = result_image self \<and>
         preview (recompute env self) = preview self \<and>
         stdout (recompute env self) = stdout self @ [''Render error: '' @ message ex] \<and>
         (\<exists>bg. recompute env self =
            self\<lparr>filtered_bg := bg, stdout := stdout self @ [''Render error: '' @ message ex]\<rparr>)"
  using assms
proof (elim disjE exE conjE)
  assume "apply_style env (base_image self) (current_style self) = Inl ex"
  then have r: "recompute env self = render_error self ex"
    by (rule recompute_filter_fails)
  have "recompute env self =
      self\<lparr>filtered_bg := filtered_bg self,
           stdout := stdout self @ [''Render error: '' @ message ex]\<rparr>"
    by (simp add: r render_error_def)
  then show ?thesis
    by (intro conjI exI [of _ "filtered_bg self"]) (simp_all add: r render_error_def)
next
  fix bg
  assume "apply_style env (base_image self) (current_style self) = Inr bg"
    and "compose_final env (self\<lparr>filtered_bg := bg\<rparr>) True = Inl ex"
  then have r: "recompute env self = render_error (self\<lparr>filtered_bg := bg\<rparr>) ex"
    by (rule recompute_compose_fails)
  show ?thesis
    by (intro conjI exI [of _ bg]) (simp_all add: r render_error_def)
qed

lemma epic_filter_fails:
  "apply_style failing_platform (base_image epic) (current_style epic) =
     Inl (Exception ''unsupported mode'')"
  by (simp add: epic_def initial_def apply_style_Epic failing_platform_def example_platform_def
      and_then_def)

lemma hello_filter_returns:
  "apply_style no_draw_platform (base_image hello) (current_style hello) = Inr canvas"
  by (simp add: hello_def initial_def apply_style_None convert_RGB_def canvas_def)

lemma hello_compose_fails:
  "compose_final no_draw_platform (hello\<lparr>filtered_bg := canvas\<rparr>) True =
     Inl (Exception ''cannot draw'')"
proof -
  let ?s = "hello\<lparr>filtered_bg := canvas\<rparr>"
  have a: "apply_style no_draw_platform (base_image ?s) (current_style ?s) = Inr canvas"
    using hello_filter_returns by simp
  show ?thesis
    unfolding compose_final_def a
    by (simp add: draw_text_with_shadow_def and_then_def no_draw_platform_def state_eval
        layout_eval floor_numeral_div str_def)
qed

theorem recompute_keeps_result_image_witness:
  "apply_style failing_platform (base_image epic) (current_style epic) =
     Inl (Exception ''unsupported mode'') \<and>
   result_image (recompute failing_platform epic) = Some small_canvas \<and>
   stdout (recompute failing_platform epic) = [''Render error: unsupported mode''] \<and>
   apply_style no_draw_platform (base_image hello) (current_style hello) = Inr canvas \<and>
   compose_final no_draw_platform (hello\<lparr>filtered_bg := canvas\<rparr>) True =
     Inl (Exception ''cannot draw'') \<and>
   result_image (recompute no_draw_platform hello) = Some canvas \<and>
   stdout (recompute no_draw_platform hello) = [''Render error: cannot draw'']"
proof -
  note a = recompute_keeps_result_image [of failing_platform epic "Exception ''unsupported mode''"]
  note b = recompute_keeps_result_image [of no_draw_platform hello "Exception ''cannot draw''"]
  have ra: "result_image epic = Some small_canvas" "stdout epic = []"
    by (simp_all add: epic_def initial_def)
  have rb: "result_image hello = Some canvas" "stdout hello = []"
    by (simp_all add: hello_def initial_def)
  from a epic_filter_fails ra
  have 1: "result_image (recompute failing_platform epic) = Some small_canvas \<and>
      stdout (recompute failing_platform epic) = [''Render error: unsupported mode'']"
    by (simp add: message_def)
  from b hello_filter_returns hello_compose_fails rb
  have 2: "result_image (recompute no_draw_platform hello) = Some canvas \<and>
      stdout (recompute no_draw_platform hello) = [''Render error: cannot draw'']"
    by (simp add: message_def)
  from 1 2 epic_filter_fails hello_filter_returns hello_compose_fails show ?thesis
    by simp
qed

end
